theory Spec2Isabelle
  imports Main
begin

section \<open>Python values used by the banking program\<close>

text \<open>
  The exceptions the modelled code can raise. A Python \<^verbatim>\<open>str\<close> is a \<open>string\<close>:
  every character the program produces itself is an ASCII digit, and typed input is taken
  over the 8-bit characters, among which \<^verbatim>\<open>int\<close> accepts exactly \<open>0\<close> to \<open>9\<close>
  (decimal digits of other scripts lie outside this character type). Integers are
  unbounded, as in Python.
\<close>

datatype error = ValueError | IndexError | TypeError | OverflowError

text \<open>
  \<^verbatim>\<open>int(y)\<close> for a one-character string \<open>y\<close>: the digit's value, or \<open>ValueError\<close>.
\<close>

definition int_of_char :: "char \<Rightarrow> error + int" where
  "int_of_char y =
     (let n = (of_char y :: nat)
      in if 48 \<le> n \<and> n \<le> 57 then Inr (int n - 48) else Inl ValueError)"

text \<open>The comprehension \<^verbatim>\<open>[int(y) for y in x]\<close>: the first bad character raises.\<close>

fun int_list :: "string \<Rightarrow> error + int list" where
  "int_list [] = Inr []"
| "int_list (y # x) =
     (case int_of_char y of
        Inl e \<Rightarrow> Inl e
      | Inr d \<Rightarrow> (case int_list x of Inl e \<Rightarrow> Inl e | Inr ds \<Rightarrow> Inr (d # ds)))"

text \<open>
  \<^verbatim>\<open>str(n)\<close> of a non-negative integer, and the zero-padded formats
  \<^verbatim>\<open>'{:09d}'.format(n)\<close> and \<^verbatim>\<open>'{:04d}'.format(n)\<close>.
\<close>

fun str_nat :: "nat \<Rightarrow> string" where
  "str_nat n =
     (if n < 10 then [char_of (48 + n)]
      else str_nat (n div 10) @ [char_of (48 + n mod 10)])"

declare str_nat.simps [simp del]

definition str_int :: "int \<Rightarrow> string" where
  "str_int i = (if i < 0 then CHR ''-'' # str_nat (nat (- i)) else str_nat (nat i))"

definition format_0d :: "nat \<Rightarrow> nat \<Rightarrow> string" where
  "format_0d width n =
     replicate (width - length (str_nat n)) (CHR ''0'') @ str_nat n"

section \<open>The Luhn computation (banking.py)\<close>

text \<open>
  Both \<^verbatim>\<open>generate_checksum\<close> and \<^verbatim>\<open>passes_luhn\<close> run the same two loops over a list
  of integers, updating it in place:
  \<^verbatim>\<open>
  for i, num in enumerate(x_list):
      if i % 2 == 0:
          x_list[i] = num * 2
  for i in range(len(x_list)):
      if x_list[i] > 9:
          x_list[i] -= 9
  \<close>
  Each loop is a fold of its body over the indices, on the list being updated.
\<close>

definition double_even_indices :: "int list \<Rightarrow> int list" where
  "double_even_indices x_list =
     fold (\<lambda>i l. if i mod 2 = 0 then l[i := (l ! i) * 2] else l)
          [0..<length x_list] x_list"

definition subtract_nine :: "int list \<Rightarrow> int list" where
  "subtract_nine x_list =
     fold (\<lambda>i l. if l ! i > 9 then l[i := l ! i - 9] else l)
          [0..<length x_list] x_list"

text \<open>
  \<^verbatim>\<open>Account.generate_checksum\<close>, as a function of the account number:
  \<^verbatim>\<open>
  x = '400000' + self.account_number
  x_list = [int(y) for y in x]
  ...
  control = sum(x_list)
  self.checksum = (10 - (control % 10)) % 10
  \<close>
\<close>

definition generate_checksum :: "string \<Rightarrow> error + int" where
  "generate_checksum account_number =
     (case int_list (''400000'' @ account_number) of
        Inl e \<Rightarrow> Inl e
      | Inr x_list \<Rightarrow>
          let control = sum_list (subtract_nine (double_even_indices x_list))
          in Inr ((10 - (control mod 10)) mod 10))"

text \<open>
  \<^verbatim>\<open>Account.generate_card_number\<close>:
  \<^verbatim>\<open>self.card_number = f'400000{self.account_number}{self.checksum}'\<close>
\<close>

definition generate_card_number :: "string \<Rightarrow> int \<Rightarrow> string" where
  "generate_card_number account_number checksum =
     ''400000'' @ account_number @ str_int checksum"

text \<open>
  \<^verbatim>\<open>passes_luhn(card_num)\<close>:
  \<^verbatim>\<open>
  card_num_list = [int(y) for y in card_num]
  checksum = card_num_list[len(card_num_list)-1]
  del card_num_list[len(card_num_list)-1]
  ...
  control = sum(card_num_list)
  final_sum = control + checksum
  return final_sum % 10 == 0
  \<close>
  On the empty string the index is \<open>-1\<close> into an empty list: \<open>IndexError\<close>.
\<close>

definition passes_luhn :: "string \<Rightarrow> error + bool" where
  "passes_luhn card_num =
     (case int_list card_num of
        Inl e \<Rightarrow> Inl e
      | Inr card_num_list \<Rightarrow>
          if card_num_list = [] then Inl IndexError
          else
            let checksum = card_num_list ! (length card_num_list - 1);
                card_num_list = take (length card_num_list - 1) card_num_list;
                control = sum_list (subtract_nine (double_even_indices card_num_list));
                final_sum = control + checksum
            in Inr (final_sum mod 10 = 0))"

section \<open>The card table (banking.py)\<close>

text \<open>
  The table \<^verbatim>\<open>card (id INTEGER, number TEXT, pin TEXT, balance INTEGER DEFAULT 0)\<close>
  has no key and no uniqueness constraint, so it is a list of rows in insertion order:
  duplicates are possible, \<^verbatim>\<open>fetchone()\<close> yields the first matching row and
  \<^verbatim>\<open>UPDATE\<close>/\<^verbatim>\<open>DELETE\<close> act on every matching row. A row holds the four values
  the \<^verbatim>\<open>INSERT\<close> of \<^verbatim>\<open>create_card\<close> binds; no query of the program reads
  the \<^verbatim>\<open>id\<close> column.
\<close>

record card_row =
  id_col :: string
  number_col :: string
  pin_col :: string
  balance_col :: int

type_synonym database = "card_row list"

text \<open>
  The sqlite3 module binds a Python \<^verbatim>\<open>int\<close> as a 64-bit signed INTEGER and raises
  \<^verbatim>\<open>OverflowError\<close> for any other value.
\<close>

definition sqlite_integer :: "int \<Rightarrow> bool" where
  "sqlite_integer v = (- (2 ^ 63) \<le> v \<and> v < 2 ^ 63)"

text \<open>\<^verbatim>\<open>SELECT ... FROM card WHERE number=?\<close> followed by \<^verbatim>\<open>fetchone()\<close>.\<close>

definition fetchone_number :: "database \<Rightarrow> string \<Rightarrow> card_row option" where
  "fetchone_number db v = find (\<lambda>r. number_col r = v) db"

text \<open>
  The instance the class \<^verbatim>\<open>Account\<close> builds. The random draws are parameters: the
  list of values \<^verbatim>\<open>random.randint(000000000, 999999999)\<close> returns in turn, and the
  one value of \<^verbatim>\<open>random.randint(0000, 9999)\<close>.
\<close>

record account =
  account_number :: string
  checksum :: int
  card_number :: string
  pin :: string
  balance :: int

text \<open>
  \<^verbatim>\<open>Account.generate_account_number\<close>:
  \<^verbatim>\<open>
  number = '{:09d}'.format(random.randint(000000000, 999999999))
  cursor.execute('SELECT * FROM card WHERE number=?', (number,))
  result = cursor.fetchone()
  while result is not None:
      number = '{:09d}'.format(random.randint(000000000, 999999999))
      cursor.execute('SELECT * FROM card WHERE number=?', (number,))
      result = cursor.fetchone()
  self.account_number = number
  \<close>
  The loop takes one draw per round; \<open>None\<close> means that it has not returned within
  the draws given.
\<close>

fun generate_account_number :: "database \<Rightarrow> nat list \<Rightarrow> string option" where
  "generate_account_number db [] = None"
| "generate_account_number db (d # draws) =
     (let number = format_0d 9 d
      in if fetchone_number db number = None then Some number
         else generate_account_number db draws)"

text \<open>\<^verbatim>\<open>Account.generate_pin\<close>: \<^verbatim>\<open>'{:04d}'.format(random.randint(0000, 9999))\<close>.\<close>

definition generate_pin :: "nat \<Rightarrow> string" where
  "generate_pin pin_draw = format_0d 4 pin_draw"

text \<open>
  \<^verbatim>\<open>Account.__init__\<close>: account number, checksum, card number, PIN, with balance 0.
\<close>

definition new_account :: "database \<Rightarrow> nat list \<Rightarrow> nat \<Rightarrow> (error + account) option" where
  "new_account db draws pin_draw =
     (case generate_account_number db draws of
        None \<Rightarrow> None
      | Some number \<Rightarrow>
          (case generate_checksum number of
             Inl e \<Rightarrow> Some (Inl e)
           | Inr c \<Rightarrow>
               Some (Inr \<lparr> account_number = number, checksum = c,
                           card_number = generate_card_number number c,
                           pin = generate_pin pin_draw, balance = 0 \<rparr>)))"

text \<open>
  \<^verbatim>\<open>create_card\<close>:
  \<^verbatim>\<open>
  new_account = Account(database)
  cursor.execute(f'INSERT INTO card VALUES (?, ?, ?, ?)',
                 (new_account.account_number, new_account.card_number,
                  new_account.pin, new_account.balance))
  \<close>
\<close>

definition create_card :: "database \<Rightarrow> nat list \<Rightarrow> nat \<Rightarrow> (error + database) option" where
  "create_card db draws pin_draw =
     (case new_account db draws pin_draw of
        None \<Rightarrow> None
      | Some (Inl e) \<Rightarrow> Some (Inl e)
      | Some (Inr acct) \<Rightarrow>
          Some (Inr (db @ [\<lparr> id_col = account_number acct,
                             number_col = card_number acct,
                             pin_col = pin acct,
                             balance_col = balance acct \<rparr>])))"

text \<open>
  \<^verbatim>\<open>get_balance\<close>: the balance of the first row with that number, \<open>None\<close> when
  there is none.
\<close>

definition get_balance :: "database \<Rightarrow> string \<Rightarrow> int option" where
  "get_balance db card_num =
     (case fetchone_number db card_num of
        None \<Rightarrow> None
      | Some row \<Rightarrow> Some (balance_col row))"

text \<open>
  \<^verbatim>\<open>update_balance\<close>:
  \<^verbatim>\<open>
  cursor.execute('SELECT balance FROM card WHERE number=?', (card_num,))
  current_balance = int(cursor.fetchone()[0])
  cursor.execute('UPDATE card SET balance=? WHERE number=?',
                 (current_balance + amount, card_num))
  \<close>
  Without a matching row \<^verbatim>\<open>fetchone()\<close> is \<^verbatim>\<open>None\<close> and the subscript raises
  \<open>TypeError\<close>. The \<^verbatim>\<open>UPDATE\<close> sets the balance of every row with that number. The
  result is the exception or normal return, with the table as the call leaves it.
\<close>

definition sql_update_balance :: "database \<Rightarrow> int \<Rightarrow> string \<Rightarrow> database" where
  "sql_update_balance db v card_num =
     map (\<lambda>r. if number_col r = card_num then r\<lparr>balance_col := v\<rparr> else r) db"

definition update_balance :: "database \<Rightarrow> string \<Rightarrow> int \<Rightarrow> (error + unit) \<times> database" where
  "update_balance db card_num amount =
     (case fetchone_number db card_num of
        None \<Rightarrow> (Inl TypeError, db)
      | Some row \<Rightarrow>
          let current_balance = balance_col row
          in if sqlite_integer (current_balance + amount)
             then (Inr (), sql_update_balance db (current_balance + amount) card_num)
             else (Inl OverflowError, db))"

text \<open>\<^verbatim>\<open>close_account\<close>: \<^verbatim>\<open>DELETE FROM card WHERE number=?\<close>.\<close>

definition close_account :: "database \<Rightarrow> string \<Rightarrow> database" where
  "close_account db card_num = filter (\<lambda>r. number_col r \<noteq> card_num) db"

text \<open>
  The "add income" branch of the main loop:
  \<^verbatim>\<open>update_balance(conn, active_card_number, amount_to_add)\<close>, with the amount
  already parsed by \<^verbatim>\<open>int(input(...))\<close>.
\<close>

definition add_income :: "database \<Rightarrow> string \<Rightarrow> int \<Rightarrow> (error + unit) \<times> database" where
  "add_income db active_card_number amount_to_add =
     update_balance db active_card_number amount_to_add"

text \<open>
  \<^verbatim>\<open>do_transfer\<close> prints one line and returns nothing; the line printed is the outcome.
  \<^verbatim>\<open>
  if not passes_luhn(to_card_num):  'Probably you made a mistake in the card number...'
  elif from_card_num == to_card_num:  "You can't transfer money to the same account!"
  from_balance = get_balance(database, from_card_num)
  to_balance = get_balance(database, to_card_num)
  if to_balance is None:  'Such a card does not exist.'
  amount = int(input(...).strip())
  if amount > from_balance:  'Not enough money!'
  else:
      update_balance(database, from_card_num, -amount)
      update_balance(database, to_card_num, amount)
      'Success!'
  \<close>
  The destination (already stripped) and the amount (already parsed) are parameters.
  With \<open>from_balance\<close> being \<^verbatim>\<open>None\<close> the comparison raises \<open>TypeError\<close>. Each
  \<^verbatim>\<open>update_balance\<close> commits on its own, so an exception in the second one leaves
  the first one applied.
\<close>

datatype transfer_message =
  Mistake_in_card_number | Same_account | Card_does_not_exist | Not_enough_money | Success

definition do_transfer ::
  "database \<Rightarrow> string \<Rightarrow> string \<Rightarrow> int \<Rightarrow> (error + transfer_message) \<times> database" where
  "do_transfer db from_card_num to_card_num amount =
     (case passes_luhn to_card_num of
        Inl e \<Rightarrow> (Inl e, db)
      | Inr ok \<Rightarrow>
          if \<not> ok then (Inr Mistake_in_card_number, db)
          else if from_card_num = to_card_num then (Inr Same_account, db)
          else
            let from_balance = get_balance db from_card_num;
                to_balance = get_balance db to_card_num
            in (case to_balance of
                  None \<Rightarrow> (Inr Card_does_not_exist, db)
                | Some _ \<Rightarrow>
                    (case from_balance of
                       None \<Rightarrow> (Inl TypeError, db)
                     | Some from_bal \<Rightarrow>
                         if amount > from_bal then (Inr Not_enough_money, db)
                         else
                           (case update_balance db from_card_num (- amount) of
                              (Inl e, db1) \<Rightarrow> (Inl e, db1)
                            | (Inr _, db1) \<Rightarrow>
                                (case update_balance db1 to_card_num amount of
                                   (Inl e, db2) \<Rightarrow> (Inl e, db2)
                                 | (Inr _, db2) \<Rightarrow> (Inr Success, db2))))))"

section \<open>The specification's wording of the Luhn scheme\<close>

text \<open>
  The specification describes the checksum over the digit values of a string: at an even
  index the digit is doubled and, if the doubled value exceeds 9, reduced by 9; the
  results are summed into \<open>control\<close>; the check digit is \<open>(10 - (control mod 10)) mod 10\<close>.
  Validation splits a 16-digit string into the first 15 digits and the last one and
  accepts iff \<open>(control + checkDigit) mod 10 = 0\<close>.
\<close>

definition is_digit :: "char \<Rightarrow> bool" where
  "is_digit c = (48 \<le> (of_char c :: nat) \<and> (of_char c :: nat) \<le> 57)"

definition digit_value :: "char \<Rightarrow> int" where
  "digit_value c = int (of_char c) - 48"

definition spec_transform :: "nat \<Rightarrow> int \<Rightarrow> int" where
  "spec_transform i d =
     (if even i then (if 2 * d > 9 then 2 * d - 9 else 2 * d) else d)"

definition spec_control :: "int list \<Rightarrow> int" where
  "spec_control ds = (\<Sum>i\<leftarrow>[0..<length ds]. spec_transform i (ds ! i))"

definition spec_checksum_digit :: "string \<Rightarrow> int" where
  "spec_checksum_digit accountNumber =
     (10 - (spec_control (map digit_value (''400000'' @ accountNumber)) mod 10)) mod 10"

definition spec_luhn_validate :: "string \<Rightarrow> bool" where
  "spec_luhn_validate s =
     (let payload = take 15 s; checkDigit = digit_value (s ! 15);
          control = spec_control (map digit_value payload)
      in (control + checkDigit) mod 10 = 0)"

text \<open>Predicates used to state the properties.\<close>

definition digit_string :: "nat \<Rightarrow> string \<Rightarrow> bool" where
  "digit_string n s = (length s = n \<and> list_all is_digit s)"

definition balances_nonneg :: "database \<Rightarrow> bool" where
  "balances_nonneg db = list_all (\<lambda>r. 0 \<le> balance_col r) db"

definition all_pass_luhn :: "database \<Rightarrow> bool" where
  "all_pass_luhn db = list_all (\<lambda>r. passes_luhn (number_col r) = Inr True) db"

text \<open>
  A table with two cards, used to run the operations on concrete inputs: the cards of the
  account numbers \<open>''003424062''\<close> (balance 10) and \<open>''000000000''\<close> (balance 0).
\<close>

definition card_A :: string where
  "card_A = ''4000000034240624''"

definition card_B :: string where
  "card_B = ''4000000000000002''"

definition two_cards :: database where
  "two_cards =
     [\<lparr> id_col = ''003424062'', number_col = card_A, pin_col = ''1234'', balance_col = 10 \<rparr>,
      \<lparr> id_col = ''000000000'', number_col = card_B, pin_col = ''0042'', balance_col = 0 \<rparr>]"

section \<open>Digits and the two loops\<close>


lemma int_of_char_digit: "is_digit c \<Longrightarrow> int_of_char c = Inr (digit_value c)"
  by (simp add: int_of_char_def is_digit_def digit_value_def)

lemma int_of_char_nondigit: "\<not> is_digit c \<Longrightarrow> int_of_char c = Inl ValueError"
  by (simp add: int_of_char_def is_digit_def Let_def)

lemma int_list_digits: "list_all is_digit x \<Longrightarrow> int_list x = Inr (map digit_value x)"
  by (induction x) (simp_all add: int_of_char_digit)

lemma digit_value_range: "is_digit c \<Longrightarrow> 0 \<le> digit_value c \<and> digit_value c \<le> 9"
  unfolding is_digit_def digit_value_def by linarith

lemma fold_pointwise:
  fixes xs :: "int list"
  assumes body: "\<And>i l. i < length l \<Longrightarrow> body i l = l[i := g i (l ! i)]"
    and n: "n \<le> length xs"
  shows "fold body [0..<n] xs = map (\<lambda>i. if i < n then g i (xs ! i) else xs ! i) [0..<length xs]"
  using n
proof (induction n)
  case 0
  show ?case by (simp add: map_nth)
next
  case (Suc n)
  let ?before = "map (\<lambda>i. if i < n then g i (xs ! i) else xs ! i) [0..<length xs]"
  let ?after = "map (\<lambda>i. if i < Suc n then g i (xs ! i) else xs ! i) [0..<length xs]"
  from Suc.prems have n: "n < length xs" by simp
  have "fold body [0..<Suc n] xs = body n (fold body [0..<n] xs)" by simp
  also have "\<dots> = body n ?before" using Suc.IH n by simp
  also have "\<dots> = ?before[n := g n (?before ! n)]" using n by (simp add: body)
  also have "\<dots> = ?after"
  proof (rule nth_equalityI)
    show "length (?before[n := g n (?before ! n)]) = length ?after" by simp
  next
    fix j assume "j < length (?before[n := g n (?before ! n)])"
    then have j: "j < length xs" by simp
    show "?before[n := g n (?before ! n)] ! j = ?after ! j"
      using j n by (cases "j = n") (simp_all add: nth_list_update less_Suc_eq)
  qed
  finally show ?case .
qed

lemma double_even_indices_map:
  "double_even_indices xs = map (\<lambda>i. if i mod 2 = 0 then xs ! i * 2 else xs ! i) [0..<length xs]"
proof -
  have "double_even_indices xs =
        map (\<lambda>i. if i < length xs then (if i mod 2 = 0 then xs ! i * 2 else xs ! i) else xs ! i)
            [0..<length xs]"
    unfolding double_even_indices_def
    by (rule fold_pointwise [where g = "\<lambda>i x. if i mod 2 = 0 then x * 2 else x"]) simp_all
  then show ?thesis by simp
qed

lemma subtract_nine_map:
  "subtract_nine xs = map (\<lambda>x. if x > 9 then x - 9 else x) xs"
proof -
  have "subtract_nine xs =
        map (\<lambda>i. if i < length xs then (if xs ! i > 9 then xs ! i - 9 else xs ! i) else xs ! i)
            [0..<length xs]"
    unfolding subtract_nine_def
    by (rule fold_pointwise [where g = "\<lambda>i x. if x > 9 then x - 9 else x"]) simp_all
  also have "\<dots> = map (\<lambda>x. if x > 9 then x - 9 else x) xs"
    by (rule nth_equalityI) simp_all
  finally show ?thesis .
qed

lemma control_spec:
  assumes "list_all (\<lambda>d. 0 \<le> d \<and> d \<le> 9) ds"
  shows "sum_list (subtract_nine (double_even_indices ds)) = spec_control ds"
proof -
  have each: "(if (if i mod 2 = 0 then ds ! i * 2 else ds ! i) > 9
               then (if i mod 2 = 0 then ds ! i * 2 else ds ! i) - 9
               else (if i mod 2 = 0 then ds ! i * 2 else ds ! i)) = spec_transform i (ds ! i)"
    if "i < length ds" for i
  proof -
    from assms that have "0 \<le> ds ! i \<and> ds ! i \<le> 9"
      by (simp add: list_all_length)
    then show ?thesis
      by (auto simp add: spec_transform_def even_iff_mod_2_eq_zero)
  qed
  have "subtract_nine (double_even_indices ds) =
        map (\<lambda>i. spec_transform i (ds ! i)) [0..<length ds]"
    unfolding double_even_indices_map subtract_nine_map map_map
    by (rule map_cong) (simp_all add: each)
  then show ?thesis by (simp add: spec_control_def)
qed

lemma digit_values_range:
  "list_all is_digit s \<Longrightarrow> list_all (\<lambda>d. 0 \<le> d \<and> d \<le> 9) (map digit_value s)"
  by (induction s) (simp_all add: digit_value_range)

lemma is_digit_prefix: "list_all is_digit ''400000''"
  by (simp add: is_digit_def)

lemma generate_checksum_spec:
  assumes "list_all is_digit a"
  shows "generate_checksum a = Inr (spec_checksum_digit a)"
proof -
  from assms have d: "list_all is_digit (''400000'' @ a)"
    using is_digit_prefix by simp
  show ?thesis
    unfolding generate_checksum_def spec_checksum_digit_def
    by (simp only: int_list_digits [OF d] control_spec [OF digit_values_range [OF d]]
        sum.case Let_def)
qed

lemma passes_luhn_digits:
  assumes "list_all is_digit s" "s \<noteq> []"
  shows "passes_luhn s =
    Inr ((spec_control (map digit_value (butlast s)) + digit_value (last s)) mod 10 = 0)"
proof -
  have b: "list_all is_digit (butlast s)"
    using assms(1) by (auto simp add: list_all_iff dest: in_set_butlastD)
  have t: "take (length s - Suc 0) (map digit_value s) = map digit_value (butlast s)"
    by (simp add: butlast_conv_take take_map)
  have l: "s ! (length s - Suc 0) = last s"
    using assms(2) by (simp add: last_conv_nth)
  show ?thesis
    unfolding passes_luhn_def
    using assms(2)
    by (simp add: int_list_digits [OF assms(1)] Let_def t l
        control_spec [OF digit_values_range [OF b]])
qed

lemma str_int_digit: "0 \<le> c \<Longrightarrow> c < 10 \<Longrightarrow> str_int c = [char_of (48 + nat c)]"
  by (simp add: str_int_def str_nat.simps)

lemma checksum_char:
  assumes "0 \<le> c" "c < 10"
  shows "is_digit (char_of (48 + nat c)) \<and> digit_value (char_of (48 + nat c)) = c"
proof -
  have "48 + nat c < 256" using assms by simp
  then have "(of_char (char_of (48 + nat c) :: char) :: nat) = 48 + nat c"
    by simp
  then show ?thesis using assms by (simp add: is_digit_def digit_value_def)
qed

lemma round_trip_general:
  assumes "list_all is_digit a"
  shows "passes_luhn (generate_card_number a (spec_checksum_digit a)) = Inr True"
proof -
  let ?c = "spec_checksum_digit a"
  let ?ch = "char_of (48 + nat ?c) :: char"
  have c: "0 \<le> ?c" "?c < 10" by (simp_all add: spec_checksum_digit_def)
  have card: "generate_card_number a ?c = (''400000'' @ a) @ [?ch]"
    by (simp add: generate_card_number_def str_int_digit [OF c])
  have dig: "list_all is_digit ((''400000'' @ a) @ [?ch])"
    using assms is_digit_prefix checksum_char [OF c] by simp
  have "passes_luhn ((''400000'' @ a) @ [?ch]) =
        Inr ((spec_control (map digit_value (''400000'' @ a)) + ?c) mod 10 = 0)"
    using passes_luhn_digits [OF dig] checksum_char [OF c]
    by (simp only: butlast_snoc last_snoc snoc_eq_iff_butlast simp_thms)
  moreover have "(spec_control (map digit_value (''400000'' @ a)) + ?c) mod 10 = 0"
    unfolding spec_checksum_digit_def by presburger
  ultimately show ?thesis by (simp add: card)
qed


section \<open>Checksum generation and validation\<close>

text \<open>
  C2, as amended. For every 9-digit account number, \<^verbatim>\<open>generate_checksum\<close> computes the
  check digit the specification describes: over the digits of \<open>''400000''\<close> followed by the
  account number, each digit at an even index is doubled, 9 is subtracted from a doubled
  value above 9, the 15 values are summed into \<open>control\<close>, and the digit is
  \<open>(10 - (control mod 10)) mod 10\<close>. For the account number \<open>''003424062''\<close> that digit
  is 4.
\<close>

theorem generate_checksum_refines_spec:
  assumes "digit_string 9 a"
  shows "generate_checksum a = Inr (spec_checksum_digit a) \<and>
         (a = ''003424062'' \<longrightarrow> generate_checksum a = Inr 4)"
proof -
  from assms have d: "list_all is_digit a" by (simp add: digit_string_def)
  have "generate_checksum ''003424062'' = Inr 4" by code_simp
  with generate_checksum_spec [OF d] show ?thesis by simp
qed

theorem generate_checksum_refines_spec_witness:
  "digit_string 9 ''003424062'' \<and>
   generate_checksum ''003424062'' = Inr (spec_checksum_digit ''003424062'') \<and>
   generate_checksum ''003424062'' = Inr 4"
proof -
  have h: "digit_string 9 ''003424062''"
    by (simp add: digit_string_def is_digit_def)
  from generate_checksum_refines_spec [OF h]
  have r: "generate_checksum ''003424062'' = Inr (spec_checksum_digit ''003424062'')"
    and e: "generate_checksum ''003424062'' = Inr 4"
    by blast+
  from h r e show ?thesis by (intro conjI)
qed

text \<open>
  The example of the specification does not hold: for the account number
  \<open>''003424062''\<close> the code computes 4, not 8, the specification's own formula gives 4
  as well, and \<open>''4000000034240628''\<close> does not pass the validation.
\<close>

theorem generate_checksum_example_counterexample:
  "digit_string 9 ''003424062'' \<and>
   generate_checksum ''003424062'' \<noteq> Inr 8 \<and>
   spec_checksum_digit ''003424062'' = 4 \<and>
   passes_luhn ''4000000034240628'' = Inr False"
proof -
  have "digit_string 9 ''003424062''"
    by (simp add: digit_string_def is_digit_def)
  moreover have "generate_checksum ''003424062'' = Inr 4" by code_simp
  moreover have "spec_checksum_digit ''003424062'' = 4" by code_simp
  moreover have "passes_luhn ''4000000034240628'' = Inr False" by code_simp
  ultimately show ?thesis by simp
qed

text \<open>
  C3. On a string of 16 digits \<^verbatim>\<open>passes_luhn\<close> returns, and returns true exactly when
  the specification's validation accepts: with the first 15 digits as payload and the last
  digit as check digit, \<open>(control + checkDigit) mod 10 = 0\<close>, where \<open>control\<close> sums the
  payload under the even-index doubling and subtract-9 reduction.
\<close>

theorem passes_luhn_refines_spec:
  assumes "digit_string 16 s"
  shows "passes_luhn s = Inr (spec_luhn_validate s)"
proof -
  from assms have d: "list_all is_digit s" and len: "length s = 16"
    by (simp_all add: digit_string_def)
  from len have ne: "s \<noteq> []" by auto
  from len have b: "butlast s = take 15 s" by (simp add: butlast_conv_take)
  from len ne have l: "last s = s ! 15" by (simp add: last_conv_nth)
  show ?thesis
    using passes_luhn_digits [OF d ne]
    by (simp add: spec_luhn_validate_def b l)
qed

theorem passes_luhn_refines_spec_witness:
  "digit_string 16 ''4000000034240624'' \<and>
   passes_luhn ''4000000034240624'' = Inr (spec_luhn_validate ''4000000034240624'') \<and>
   spec_luhn_validate ''4000000034240624''"
proof -
  have h: "digit_string 16 ''4000000034240624''"
    by (simp add: digit_string_def is_digit_def)
  have v: "spec_luhn_validate ''4000000034240624''" by code_simp
  show ?thesis using h v passes_luhn_refines_spec [OF h] by simp
qed

section \<open>Lookups and updates on the card table\<close>


lemma get_balance_Nil: "get_balance [] c = None"
  by (simp add: get_balance_def fetchone_number_def)

lemma get_balance_Cons:
  "get_balance (r # db) c = (if number_col r = c then Some (balance_col r) else get_balance db c)"
  by (simp add: get_balance_def fetchone_number_def)

lemma sql_update_balance_Cons:
  "sql_update_balance (r # db) v c =
     (if number_col r = c then r\<lparr>balance_col := v\<rparr> else r) # sql_update_balance db v c"
  by (simp add: sql_update_balance_def)

lemma get_balance_update_same:
  "get_balance (sql_update_balance db v c) c = (case get_balance db c of None \<Rightarrow> None | Some _ \<Rightarrow> Some v)"
  by (induction db) (simp_all add: get_balance_Cons sql_update_balance_Cons sql_update_balance_def get_balance_Nil)

lemma get_balance_update_other:
  "c' \<noteq> c \<Longrightarrow> get_balance (sql_update_balance db v c) c' = get_balance db c'"
  by (induction db) (simp_all add: get_balance_Cons sql_update_balance_Cons sql_update_balance_def get_balance_Nil)

lemma update_balance_absent:
  "get_balance db c = None \<Longrightarrow> update_balance db c amount = (Inl TypeError, db)"
  by (simp add: update_balance_def get_balance_def split: option.splits)

lemma update_balance_present:
  "get_balance db c = Some b \<Longrightarrow>
   update_balance db c amount =
     (if sqlite_integer (b + amount) then (Inr (), sql_update_balance db (b + amount) c)
      else (Inl OverflowError, db))"
  by (auto simp add: update_balance_def get_balance_def Let_def split: option.splits)

lemma do_transfer_checked:
  assumes "passes_luhn t = Inr True" "f \<noteq> t" "get_balance db t = Some tb"
    "get_balance db f = Some fb"
  shows "do_transfer db f t amount =
    (if amount > fb then (Inr Not_enough_money, db)
     else if \<not> sqlite_integer (fb - amount) then (Inl OverflowError, db)
     else if \<not> sqlite_integer (tb + amount)
       then (Inl OverflowError, sql_update_balance db (fb - amount) f)
     else (Inr Success,
           sql_update_balance (sql_update_balance db (fb - amount) f) (tb + amount) t))"
proof -
  have first: "update_balance db f (- amount) =
     (if sqlite_integer (fb - amount) then (Inr (), sql_update_balance db (fb - amount) f)
      else (Inl OverflowError, db))"
    using update_balance_present [OF assms(4), of "- amount"] by simp
  have tb': "get_balance (sql_update_balance db (fb - amount) f) t = Some tb"
    using assms(2,3) by (simp add: get_balance_update_other)
  note second = update_balance_present [OF tb', of amount]
  show ?thesis
    unfolding do_transfer_def
    by (simp add: assms first second Let_def)
qed

lemma do_transfer_Success:
  assumes "do_transfer db f t amount = (Inr Success, db')"
  shows "\<exists>fb tb. passes_luhn t = Inr True \<and> f \<noteq> t \<and> get_balance db f = Some fb \<and>
           get_balance db t = Some tb \<and> amount \<le> fb \<and>
           sqlite_integer (fb - amount) \<and> sqlite_integer (tb + amount) \<and>
           db' = sql_update_balance (sql_update_balance db (fb - amount) f) (tb + amount) t"
proof -
  from assms have luhn: "passes_luhn t = Inr True"
    by (auto simp add: do_transfer_def split: sum.splits if_splits)
  from assms luhn have ne: "f \<noteq> t"
    by (auto simp add: do_transfer_def split: if_splits)
  from assms luhn ne obtain tb where tb: "get_balance db t = Some tb"
    by (cases "get_balance db t") (auto simp add: do_transfer_def Let_def)
  from assms luhn ne tb obtain fb where fb: "get_balance db f = Some fb"
    by (cases "get_balance db f") (auto simp add: do_transfer_def Let_def)
  from assms show ?thesis
    unfolding do_transfer_checked [OF luhn ne tb fb]
    using luhn ne tb fb by (auto split: if_splits)
qed



lemma get_balance_None_iff:
  "get_balance db c = None \<longleftrightarrow> c \<notin> set (map number_col db)"
  by (induction db) (auto simp add: get_balance_Cons get_balance_Nil)

lemma other_rows_unchanged:
  "filter (\<lambda>r. number_col r \<noteq> c) (sql_update_balance db v c) =
   filter (\<lambda>r. number_col r \<noteq> c) db"
  by (induction db) (simp_all add: sql_update_balance_def)

lemma number_col_update: "map number_col (sql_update_balance db v c) = map number_col db"
  by (induction db) (simp_all add: sql_update_balance_def)

lemma filter_other_rows:
  "filter (\<lambda>r. number_col r \<noteq> a \<and> number_col r \<noteq> b) (sql_update_balance db v a) =
   filter (\<lambda>r. number_col r \<noteq> a \<and> number_col r \<noteq> b) db"
  "filter (\<lambda>r. number_col r \<noteq> a \<and> number_col r \<noteq> b) (sql_update_balance db v b) =
   filter (\<lambda>r. number_col r \<noteq> a \<and> number_col r \<noteq> b) db"
  by (induction db) (simp_all add: sql_update_balance_def)

section \<open>Transfers\<close>

text \<open>
  C4. A transfer that reports success was between two different stored cards \<open>A\<close> and
  \<open>B\<close>; afterwards the balance of \<open>A\<close> is the old one minus the amount and the balance
  of \<open>B\<close> the old one plus the amount, so their sum is the sum before; the balance of
  every other card number, and every row of another card, is unchanged.
\<close>

theorem transfer_conserves_balance:
  assumes "do_transfer db A B amount = (Inr Success, db')"
  shows "A \<noteq> B \<and>
    (\<exists>a b a' b'. get_balance db A = Some a \<and> get_balance db B = Some b \<and>
        get_balance db' A = Some a' \<and> get_balance db' B = Some b' \<and>
        a' = a - amount \<and> b' = b + amount \<and> a' + b' = a + b) \<and>
    (\<forall>C. C \<noteq> A \<and> C \<noteq> B \<longrightarrow> get_balance db' C = get_balance db C) \<and>
    filter (\<lambda>r. number_col r \<noteq> A \<and> number_col r \<noteq> B) db' =
      filter (\<lambda>r. number_col r \<noteq> A \<and> number_col r \<noteq> B) db"
proof -
  from do_transfer_Success [OF assms] obtain fb tb where
    ne: "A \<noteq> B" and fb: "get_balance db A = Some fb" and tb: "get_balance db B = Some tb"
    and db': "db' = sql_update_balance (sql_update_balance db (fb - amount) A) (tb + amount) B"
    by blast
  have a': "get_balance db' A = Some (fb - amount)"
    using ne fb by (simp add: db' get_balance_update_other get_balance_update_same)
  have tb1: "get_balance (sql_update_balance db (fb - amount) A) B = Some tb"
    using ne tb by (simp add: get_balance_update_other)
  have b': "get_balance db' B = Some (tb + amount)"
    using tb1 by (simp add: db' get_balance_update_same)
  have others: "\<forall>C. C \<noteq> A \<and> C \<noteq> B \<longrightarrow> get_balance db' C = get_balance db C"
    by (simp add: db' get_balance_update_other)
  have rows: "filter (\<lambda>r. number_col r \<noteq> A \<and> number_col r \<noteq> B) db' =
      filter (\<lambda>r. number_col r \<noteq> A \<and> number_col r \<noteq> B) db"
    by (simp add: db' filter_other_rows)
  from ne fb tb a' b' others rows show ?thesis by simp
qed

theorem transfer_conserves_balance_witness:
  "do_transfer two_cards card_A card_B 4 =
     (Inr Success,
      [\<lparr> id_col = ''003424062'', number_col = card_A, pin_col = ''1234'', balance_col = 6 \<rparr>,
       \<lparr> id_col = ''000000000'', number_col = card_B, pin_col = ''0042'', balance_col = 4 \<rparr>]) \<and>
   get_balance two_cards card_A = Some 10 \<and> get_balance two_cards card_B = Some 0 \<and>
   card_A \<noteq> card_B"
proof -
  have run: "do_transfer two_cards card_A card_B 4 =
     (Inr Success,
      [\<lparr> id_col = ''003424062'', number_col = card_A, pin_col = ''1234'', balance_col = 6 \<rparr>,
       \<lparr> id_col = ''000000000'', number_col = card_B, pin_col = ''0042'', balance_col = 4 \<rparr>])"
    by code_simp
  have a: "get_balance two_cards card_A = Some 10" by code_simp
  have b: "get_balance two_cards card_B = Some 0" by code_simp
  from transfer_conserves_balance [OF run] have "card_A \<noteq> card_B" by blast
  with run a b show ?thesis by (intro conjI)
qed

text \<open>
  C6. When the amount exceeds the balance of the source card the table is left as it was,
  and once the destination has passed the Luhn check, differs from the source and exists,
  the outcome is "Not enough money!" (the specification's \<open>InsufficientFunds\<close>).
\<close>

theorem transfer_insufficient_funds:
  assumes "get_balance db f = Some fb" "amount > fb"
  shows "snd (do_transfer db f t amount) = db \<and>
    (passes_luhn t = Inr True \<and> f \<noteq> t \<and> get_balance db t \<noteq> None \<longrightarrow>
       do_transfer db f t amount = (Inr Not_enough_money, db))"
proof -
  have "snd (do_transfer db f t amount) = db"
    using assms
    by (simp add: do_transfer_def Let_def split: sum.splits option.splits)
  moreover have "do_transfer db f t amount = (Inr Not_enough_money, db)"
    if "passes_luhn t = Inr True" "f \<noteq> t" "get_balance db t \<noteq> None"
  proof -
    from that(3) obtain tb where "get_balance db t = Some tb" by auto
    from do_transfer_checked [OF that(1,2) this assms(1)] assms(2) show ?thesis by simp
  qed
  ultimately show ?thesis by blast
qed

theorem transfer_insufficient_funds_witness:
  "get_balance two_cards card_A = Some 10 \<and> (11::int) > 10 \<and>
   passes_luhn card_B = Inr True \<and> card_A \<noteq> card_B \<and> get_balance two_cards card_B \<noteq> None \<and>
   do_transfer two_cards card_A card_B 11 = (Inr Not_enough_money, two_cards)"
proof -
  have a: "get_balance two_cards card_A = Some 10" by code_simp
  have l: "passes_luhn card_B = Inr True" by code_simp
  have n: "card_A \<noteq> card_B" by code_simp
  have b: "get_balance two_cards card_B \<noteq> None" by code_simp
  have g: "(11::int) > 10" by simp
  from transfer_insufficient_funds [OF a g, of card_B] l n b
  have "do_transfer two_cards card_A card_B 11 = (Inr Not_enough_money, two_cards)" by blast
  with a l n b g show ?thesis by (intro conjI)
qed

text \<open>
  C10. For a destination that passes the Luhn check and differs from the source: a
  destination that is not stored gives "Such a card does not exist." with the table
  unchanged, whether the source is stored or not; with the destination stored and the
  source not stored, the source-balance lookup is \<open>None\<close> and the comparison raises
  \<open>TypeError\<close>, with the table unchanged.
\<close>

theorem transfer_requires_source:
  assumes "passes_luhn t = Inr True" "f \<noteq> t"
  shows "(t \<notin> set (map number_col db) \<longrightarrow>
            do_transfer db f t amount = (Inr Card_does_not_exist, db)) \<and>
         (t \<in> set (map number_col db) \<and> f \<notin> set (map number_col db) \<longrightarrow>
            get_balance db f = None \<and> do_transfer db f t amount = (Inl TypeError, db))"
proof -
  have "do_transfer db f t amount = (Inr Card_does_not_exist, db)"
    if "t \<notin> set (map number_col db)"
  proof -
    from that have "get_balance db t = None" by (simp add: get_balance_None_iff)
    with assms show ?thesis by (simp add: do_transfer_def Let_def)
  qed
  moreover have "get_balance db f = None \<and> do_transfer db f t amount = (Inl TypeError, db)"
    if "t \<in> set (map number_col db)" "f \<notin> set (map number_col db)"
  proof -
    from that(2) have f: "get_balance db f = None" by (simp add: get_balance_None_iff)
    from that(1) have "get_balance db t \<noteq> None" by (simp add: get_balance_None_iff)
    then obtain tb where "get_balance db t = Some tb" by auto
    with assms f show ?thesis by (simp add: do_transfer_def Let_def)
  qed
  ultimately show ?thesis by blast
qed

theorem transfer_requires_source_witness:
  "passes_luhn card_B = Inr True \<and> ''4000000000000051'' \<noteq> card_B \<and>
   card_B \<in> set (map number_col two_cards) \<and>
   ''4000000000000051'' \<notin> set (map number_col two_cards) \<and>
   do_transfer two_cards ''4000000000000051'' card_B 1 = (Inl TypeError, two_cards) \<and>
   passes_luhn ''4000000000000051'' = Inr True \<and> card_A \<noteq> ''4000000000000051'' \<and>
   do_transfer two_cards card_A ''4000000000000051'' 1 = (Inr Card_does_not_exist, two_cards)"
proof -
  have l: "passes_luhn card_B = Inr True" by code_simp
  have n: "''4000000000000051'' \<noteq> card_B" by code_simp
  have t: "card_B \<in> set (map number_col two_cards)" by code_simp
  have f: "''4000000000000051'' \<notin> set (map number_col two_cards)" by code_simp
  have l2: "passes_luhn ''4000000000000051'' = Inr True" by code_simp
  have n2: "card_A \<noteq> ''4000000000000051''" by code_simp
  from transfer_requires_source [OF l n, of two_cards 1] t f
  have r1: "do_transfer two_cards ''4000000000000051'' card_B 1 = (Inl TypeError, two_cards)"
    by blast
  from transfer_requires_source [OF l2 n2, of two_cards 1] f
  have r2: "do_transfer two_cards card_A ''4000000000000051'' 1 =
              (Inr Card_does_not_exist, two_cards)"
    by blast
  from l n t f r1 l2 n2 r2 show ?thesis by (intro conjI)
qed


section \<open>Balances and the sign of the amount\<close>

lemma balances_nonneg_update:
  "balances_nonneg db \<Longrightarrow> 0 \<le> v \<Longrightarrow> balances_nonneg (sql_update_balance db v c)"
  by (induction db) (simp_all add: balances_nonneg_def sql_update_balance_def)

lemma balances_nonneg_get:
  "balances_nonneg db \<Longrightarrow> get_balance db c = Some b \<Longrightarrow> 0 \<le> b"
  by (induction db) (auto simp add: balances_nonneg_def get_balance_Cons get_balance_Nil split: if_splits)

lemma update_balance_nonneg:
  assumes "balances_nonneg db" "0 \<le> amount"
  shows "balances_nonneg (snd (update_balance db c amount))"
proof (cases "get_balance db c")
  case None
  then show ?thesis using assms by (simp add: update_balance_absent)
next
  case (Some b)
  with assms have "0 \<le> b + amount" using balances_nonneg_get by fastforce
  with Some assms show ?thesis
    by (simp add: update_balance_present balances_nonneg_update)
qed

lemma do_transfer_table:
  "snd (do_transfer db f t amount) = db \<or>
   (\<exists>fb tb. get_balance db f = Some fb \<and> get_balance db t = Some tb \<and> amount \<le> fb \<and>
      (snd (do_transfer db f t amount) = sql_update_balance db (fb - amount) f \<or>
       snd (do_transfer db f t amount) =
         sql_update_balance (sql_update_balance db (fb - amount) f) (tb + amount) t))"
proof (cases "passes_luhn t = Inr True \<and> f \<noteq> t \<and> get_balance db t \<noteq> None \<and>
              get_balance db f \<noteq> None")
  case True
  then obtain fb tb where b: "get_balance db f = Some fb" "get_balance db t = Some tb" by auto
  from True have c: "passes_luhn t = Inr True" "f \<noteq> t" by simp_all
  show ?thesis
    unfolding do_transfer_checked [OF c b(2) b(1)] using b by simp
next
  case False
  then have "snd (do_transfer db f t amount) = db"
    by (auto simp add: do_transfer_def Let_def split: sum.splits option.splits)
  then show ?thesis by simp
qed

lemma do_transfer_nonneg:
  assumes "balances_nonneg db" "0 \<le> amount"
  shows "balances_nonneg (snd (do_transfer db f t amount))"
proof -
  from do_transfer_table [of db f t amount]
  consider "snd (do_transfer db f t amount) = db"
    | fb tb where "get_balance db f = Some fb" "get_balance db t = Some tb" "amount \<le> fb"
        "snd (do_transfer db f t amount) = sql_update_balance db (fb - amount) f \<or>
         snd (do_transfer db f t amount) =
           sql_update_balance (sql_update_balance db (fb - amount) f) (tb + amount) t"
    by blast
  then show ?thesis
  proof cases
    case 1
    with assms show ?thesis by simp
  next
    case 2
    from assms(1) 2(2) have "0 \<le> tb" by (rule balances_nonneg_get)
    with assms(2) have tb: "0 \<le> tb + amount" by simp
    from 2(3) have fb: "0 \<le> fb - amount" by simp
    from 2(4) show ?thesis
      using assms(1) fb tb by (auto simp add: balances_nonneg_update)
  qed
qed

lemma create_card_row:
  assumes "create_card db draws p = Some (Inr db')"
  shows "\<exists>number c. generate_account_number db draws = Some number \<and>
           generate_checksum number = Inr c \<and>
           db' = db @ [\<lparr> id_col = number, number_col = generate_card_number number c,
                          pin_col = generate_pin p, balance_col = 0 \<rparr>]"
  using assms
  by (auto simp add: create_card_def new_account_def split: option.splits sum.splits)

text \<open>
  C7, as amended. If every stored balance is non-negative, it stays so after adding an
  income and after a transfer (whatever its outcome, both legs included) whenever the
  amount is non-negative, and after creating a card and closing an account. The code never
  checks the sign of an amount.
\<close>

theorem nonneg_preserved_for_nonneg_amounts:
  assumes "balances_nonneg db" "0 \<le> amount"
  shows "balances_nonneg (snd (add_income db c amount)) \<and>
         balances_nonneg (snd (do_transfer db f t amount)) \<and>
         (create_card db draws p = Some (Inr db') \<longrightarrow> balances_nonneg db') \<and>
         balances_nonneg (close_account db c)"
proof -
  have "balances_nonneg (snd (add_income db c amount))"
    unfolding add_income_def using assms by (rule update_balance_nonneg)
  moreover have "balances_nonneg (snd (do_transfer db f t amount))"
    using assms by (rule do_transfer_nonneg)
  moreover have "balances_nonneg db'" if "create_card db draws p = Some (Inr db')"
    using create_card_row [OF that] assms(1) by (auto simp add: balances_nonneg_def)
  moreover have "balances_nonneg (close_account db c)"
    using assms(1) by (simp add: balances_nonneg_def close_account_def list_all_iff)
  ultimately show ?thesis by blast
qed

theorem nonneg_preserved_for_nonneg_amounts_witness:
  "balances_nonneg two_cards \<and> (0::int) \<le> 4 \<and>
   balances_nonneg (snd (add_income two_cards card_A 4)) \<and>
   balances_nonneg (snd (do_transfer two_cards card_A card_B 4)) \<and>
   get_balance (snd (do_transfer two_cards card_A card_B 4)) card_A = Some 6"
proof -
  have h: "balances_nonneg two_cards" by code_simp
  have a: "(0::int) \<le> 4" by simp
  have g: "get_balance (snd (do_transfer two_cards card_A card_B 4)) card_A = Some 6"
    by code_simp
  from nonneg_preserved_for_nonneg_amounts [OF h a, of card_A card_A card_B]
  have "balances_nonneg (snd (add_income two_cards card_A 4))"
    and "balances_nonneg (snd (do_transfer two_cards card_A card_B 4))"
    by blast+
  with h a g show ?thesis by (intro conjI)
qed

text \<open>
  Non-negativity is not preserved by every operation: from a table with non-negative
  balances, adding the income \<open>-15\<close> to a balance of 10 stores \<open>-5\<close>, and transferring
  \<open>-5\<close> to a card with balance 0 reports success and stores \<open>-5\<close> there.
\<close>

theorem nonneg_counterexample:
  "balances_nonneg two_cards \<and>
   add_income two_cards card_A (- 15) =
     (Inr (),
      [\<lparr> id_col = ''003424062'', number_col = card_A, pin_col = ''1234'', balance_col = - 5 \<rparr>,
       \<lparr> id_col = ''000000000'', number_col = card_B, pin_col = ''0042'', balance_col = 0 \<rparr>]) \<and>
   \<not> balances_nonneg (snd (add_income two_cards card_A (- 15))) \<and>
   do_transfer two_cards card_A card_B (- 5) =
     (Inr Success,
      [\<lparr> id_col = ''003424062'', number_col = card_A, pin_col = ''1234'', balance_col = 15 \<rparr>,
       \<lparr> id_col = ''000000000'', number_col = card_B, pin_col = ''0042'', balance_col = - 5 \<rparr>]) \<and>
   \<not> balances_nonneg (snd (do_transfer two_cards card_A card_B (- 5)))"
proof -
  have "balances_nonneg two_cards" by code_simp
  moreover have "add_income two_cards card_A (- 15) =
     (Inr (),
      [\<lparr> id_col = ''003424062'', number_col = card_A, pin_col = ''1234'', balance_col = - 5 \<rparr>,
       \<lparr> id_col = ''000000000'', number_col = card_B, pin_col = ''0042'', balance_col = 0 \<rparr>])"
    by code_simp
  moreover have "\<not> balances_nonneg (snd (add_income two_cards card_A (- 15)))" by code_simp
  moreover have "do_transfer two_cards card_A card_B (- 5) =
     (Inr Success,
      [\<lparr> id_col = ''003424062'', number_col = card_A, pin_col = ''1234'', balance_col = 15 \<rparr>,
       \<lparr> id_col = ''000000000'', number_col = card_B, pin_col = ''0042'', balance_col = - 5 \<rparr>])"
    by code_simp
  moreover have "\<not> balances_nonneg (snd (do_transfer two_cards card_A card_B (- 5)))"
    by code_simp
  ultimately show ?thesis by (intro conjI)
qed



text \<open>
  C8, as amended. After the destination has passed the Luhn, same-account and existence
  checks, a transfer with an amount \<open>\<le> 0\<close> is treated like any other: it is refused with
  "Not enough money!" and no change only if the amount exceeds the source balance;
  otherwise (the new balances being 64-bit integers) it reports success, the source
  balance becomes the old one minus the amount and the destination balance the old one
  plus the amount. No outcome for an invalid amount exists.
\<close>

theorem transfer_nonpositive_amount:
  assumes "passes_luhn t = Inr True" "f \<noteq> t" "get_balance db t = Some tb"
    "get_balance db f = Some fb" "amount \<le> 0"
  shows "(amount > fb \<longrightarrow> do_transfer db f t amount = (Inr Not_enough_money, db)) \<and>
         (amount \<le> fb \<and> sqlite_integer (fb - amount) \<and> sqlite_integer (tb + amount) \<longrightarrow>
            (\<exists>db'. do_transfer db f t amount = (Inr Success, db') \<and>
                   get_balance db' f = Some (fb - amount) \<and>
                   get_balance db' t = Some (tb + amount)))"
proof -
  note run = do_transfer_checked [OF assms(1-4), of amount]
  have "do_transfer db f t amount = (Inr Not_enough_money, db)" if "amount > fb"
    using run that by simp
  moreover have "\<exists>db'. do_transfer db f t amount = (Inr Success, db') \<and>
                   get_balance db' f = Some (fb - amount) \<and>
                   get_balance db' t = Some (tb + amount)"
    if "amount \<le> fb" "sqlite_integer (fb - amount)" "sqlite_integer (tb + amount)"
  proof -
    let ?db1 = "sql_update_balance db (fb - amount) f"
    let ?db2 = "sql_update_balance ?db1 (tb + amount) t"
    from run that have r: "do_transfer db f t amount = (Inr Success, ?db2)" by simp
    have t1: "get_balance ?db1 t = Some tb"
      using assms(2,3) by (simp add: get_balance_update_other)
    have "get_balance ?db2 f = Some (fb - amount)"
      using assms(2,4) by (simp add: get_balance_update_other get_balance_update_same)
    moreover have "get_balance ?db2 t = Some (tb + amount)"
      using t1 by (simp add: get_balance_update_same)
    ultimately show ?thesis using r by blast
  qed
  ultimately show ?thesis by blast
qed

theorem transfer_nonpositive_amount_witness:
  "passes_luhn card_B = Inr True \<and> card_A \<noteq> card_B \<and>
   get_balance two_cards card_B = Some 0 \<and> get_balance two_cards card_A = Some 10 \<and>
   (- 5 :: int) \<le> 0 \<and> (- 5 :: int) \<le> 10 \<and> sqlite_integer (10 - (- 5)) \<and>
   sqlite_integer (0 + (- 5)) \<and>
   (\<exists>db'. do_transfer two_cards card_A card_B (- 5) = (Inr Success, db') \<and>
          get_balance db' card_A = Some (10 - (- 5)) \<and>
          get_balance db' card_B = Some (0 + (- 5)))"
proof -
  have l: "passes_luhn card_B = Inr True" by code_simp
  have n: "card_A \<noteq> card_B" by code_simp
  have b: "get_balance two_cards card_B = Some 0" by code_simp
  have a: "get_balance two_cards card_A = Some 10" by code_simp
  have m: "(- 5 :: int) \<le> 0" by simp
  have le: "(- 5 :: int) \<le> 10" by simp
  have s1: "sqlite_integer (10 - (- 5))" by (simp add: sqlite_integer_def)
  have s2: "sqlite_integer (0 + (- 5))" by (simp add: sqlite_integer_def)
  from transfer_nonpositive_amount [OF l n b a m] le s1 s2
  have "\<exists>db'. do_transfer two_cards card_A card_B (- 5) = (Inr Success, db') \<and>
          get_balance db' card_A = Some (10 - (- 5)) \<and>
          get_balance db' card_B = Some (0 + (- 5))"
    by blast
  with l n b a m le s1 s2 show ?thesis by (intro conjI)
qed

text \<open>
  A transfer with a non-positive amount is not rejected: with the amount \<open>-5\<close> it reports
  success and changes both balances (10 to 15 and 0 to \<open>-5\<close>), and with the amount 0 it
  reports success as well.
\<close>

theorem transfer_nonpositive_amount_counterexample:
  "passes_luhn card_B = Inr True \<and> card_A \<noteq> card_B \<and>
   get_balance two_cards card_B = Some 0 \<and> get_balance two_cards card_A = Some 10 \<and>
   do_transfer two_cards card_A card_B (- 5) =
     (Inr Success,
      [\<lparr> id_col = ''003424062'', number_col = card_A, pin_col = ''1234'', balance_col = 15 \<rparr>,
       \<lparr> id_col = ''000000000'', number_col = card_B, pin_col = ''0042'', balance_col = - 5 \<rparr>]) \<and>
   do_transfer two_cards card_A card_B 0 = (Inr Success, two_cards)"
proof -
  have "passes_luhn card_B = Inr True" by code_simp
  moreover have "card_A \<noteq> card_B" by code_simp
  moreover have "get_balance two_cards card_B = Some 0" by code_simp
  moreover have "get_balance two_cards card_A = Some 10" by code_simp
  moreover have "do_transfer two_cards card_A card_B (- 5) =
     (Inr Success,
      [\<lparr> id_col = ''003424062'', number_col = card_A, pin_col = ''1234'', balance_col = 15 \<rparr>,
       \<lparr> id_col = ''000000000'', number_col = card_B, pin_col = ''0042'', balance_col = - 5 \<rparr>])"
    by code_simp
  moreover have "do_transfer two_cards card_A card_B 0 = (Inr Success, two_cards)"
    by code_simp
  ultimately show ?thesis by (intro conjI)
qed

text \<open>
  C9, as amended. For a stored card, adding an income sets its balance to the balance plus
  the amount, for every integer amount whose sum with the balance is a 64-bit integer
  (there is no check of the amount's sign), and leaves the balance of every other card
  number unchanged.
\<close>

theorem deposit_adds_amount:
  assumes "get_balance db c = Some b" "sqlite_integer (b + amount)"
  shows "\<exists>db'. add_income db c amount = (Inr (), db') \<and>
           get_balance db' c = Some (b + amount) \<and>
           (\<forall>c'. c' \<noteq> c \<longrightarrow> get_balance db' c' = get_balance db c')"
proof -
  let ?db' = "sql_update_balance db (b + amount) c"
  have "add_income db c amount = (Inr (), ?db')"
    using assms by (simp add: add_income_def update_balance_present)
  moreover have "get_balance ?db' c = Some (b + amount)"
    using assms(1) by (simp add: get_balance_update_same)
  moreover have "\<forall>c'. c' \<noteq> c \<longrightarrow> get_balance ?db' c' = get_balance db c'"
    by (simp add: get_balance_update_other)
  ultimately show ?thesis by blast
qed

theorem deposit_adds_amount_witness:
  "get_balance two_cards card_A = Some 10 \<and> sqlite_integer (10 + 7) \<and>
   (\<exists>db'. add_income two_cards card_A 7 = (Inr (), db') \<and>
          get_balance db' card_A = Some (10 + 7) \<and>
          (\<forall>c'. c' \<noteq> card_A \<longrightarrow> get_balance db' c' = get_balance two_cards c'))"
proof -
  have a: "get_balance two_cards card_A = Some 10" by code_simp
  have s: "sqlite_integer (10 + 7)" by (simp add: sqlite_integer_def)
  from a s deposit_adds_amount [OF a s] show ?thesis by (intro conjI)
qed

text \<open>
  Adding an income of \<open>-5\<close> or of 0 does not fail: it returns normally, and \<open>-5\<close> lowers
  the balance from 10 to 5. For a card number that is not stored the call raises
  \<open>TypeError\<close>; it does not return a not-found result.
\<close>

theorem deposit_counterexample:
  "get_balance two_cards card_A = Some 10 \<and>
   add_income two_cards card_A (- 5) =
     (Inr (),
      [\<lparr> id_col = ''003424062'', number_col = card_A, pin_col = ''1234'', balance_col = 5 \<rparr>,
       \<lparr> id_col = ''000000000'', number_col = card_B, pin_col = ''0042'', balance_col = 0 \<rparr>]) \<and>
   add_income two_cards card_A 0 = (Inr (), two_cards) \<and>
   get_balance two_cards ''4000000000000051'' = None \<and>
   add_income two_cards ''4000000000000051'' 7 = (Inl TypeError, two_cards)"
proof -
  have "get_balance two_cards card_A = Some 10" by code_simp
  moreover have "add_income two_cards card_A (- 5) =
     (Inr (),
      [\<lparr> id_col = ''003424062'', number_col = card_A, pin_col = ''1234'', balance_col = 5 \<rparr>,
       \<lparr> id_col = ''000000000'', number_col = card_B, pin_col = ''0042'', balance_col = 0 \<rparr>])"
    by code_simp
  moreover have "add_income two_cards card_A 0 = (Inr (), two_cards)" by code_simp
  moreover have "get_balance two_cards ''4000000000000051'' = None" by code_simp
  moreover have "add_income two_cards ''4000000000000051'' 7 = (Inl TypeError, two_cards)"
    by code_simp
  ultimately show ?thesis by (intro conjI)
qed


section \<open>Generated and stored card numbers\<close>

lemma int_list_Inr_digits: "int_list x = Inr ds \<Longrightarrow> list_all is_digit x"
proof (induction x arbitrary: ds)
  case Nil
  show ?case by simp
next
  case (Cons y x)
  show ?case
  proof (cases "is_digit y")
    case False
    with Cons.prems show ?thesis by (simp add: int_of_char_nondigit)
  next
    case True
    with Cons.prems obtain ds' where "int_list x = Inr ds'"
      by (auto simp add: int_of_char_digit split: sum.splits)
    with Cons.IH True show ?thesis by simp
  qed
qed

lemma generate_checksum_Inr:
  assumes "generate_checksum a = Inr c"
  shows "list_all is_digit a \<and> c = spec_checksum_digit a"
proof -
  from assms obtain ds where "int_list (''400000'' @ a) = Inr ds"
    by (auto simp add: generate_checksum_def split: sum.splits)
  then have "list_all is_digit (''400000'' @ a)" by (rule int_list_Inr_digits)
  then have d: "list_all is_digit a" by simp
  with assms generate_checksum_spec [OF d] show ?thesis by simp
qed

lemma spec_checksum_digit_range: "0 \<le> spec_checksum_digit a \<and> spec_checksum_digit a < 10"
  by (simp add: spec_checksum_digit_def)

lemma card_number_digits:
  assumes "list_all is_digit a"
  shows "list_all is_digit (generate_card_number a (spec_checksum_digit a)) \<and>
         length (generate_card_number a (spec_checksum_digit a)) = length a + 7"
proof -
  have c: "0 \<le> spec_checksum_digit a" "spec_checksum_digit a < 10"
    using spec_checksum_digit_range by simp_all
  show ?thesis
    using assms is_digit_prefix checksum_char [OF c]
    by (simp add: generate_card_number_def str_int_digit [OF c])
qed

lemma all_pass_luhn_numbers:
  "map number_col db' = map number_col db \<Longrightarrow> all_pass_luhn db' = all_pass_luhn db"
proof -
  assume "map number_col db' = map number_col db"
  then have "list_all (\<lambda>n. passes_luhn n = Inr True) (map number_col db') =
             list_all (\<lambda>n. passes_luhn n = Inr True) (map number_col db)"
    by simp
  then show ?thesis by (simp add: all_pass_luhn_def list_all_iff)
qed

lemma update_balance_numbers:
  "map number_col (snd (update_balance db c amount)) = map number_col db"
  by (cases "get_balance db c")
     (simp_all add: update_balance_absent update_balance_present number_col_update)

lemma do_transfer_numbers:
  "map number_col (snd (do_transfer db f t amount)) = map number_col db"
  using do_transfer_table [of db f t amount] by (auto simp add: number_col_update)

text \<open>
  C1. For every 9-digit account number the checksum is computed without an exception, the
  card number composed of \<open>''400000''\<close>, the account number and the checksum digit is a
  string of 16 digits, and \<^verbatim>\<open>passes_luhn\<close> accepts it. The card number stored by
  \<^verbatim>\<open>create_card\<close> is composed in this way and no operation changes a stored card
  number: if every stored card number passes the validation, this still holds after
  creating a card, adding an income, a transfer and closing an account.
\<close>

theorem luhn_round_trip:
  "(digit_string 9 a \<longrightarrow>
      (\<exists>c. generate_checksum a = Inr c \<and> digit_string 16 (generate_card_number a c) \<and>
           passes_luhn (generate_card_number a c) = Inr True)) \<and>
   (all_pass_luhn db \<longrightarrow>
      (create_card db draws pin_draw = Some (Inr db') \<longrightarrow> all_pass_luhn db') \<and>
      all_pass_luhn (snd (add_income db card_num amount)) \<and>
      all_pass_luhn (snd (do_transfer db from_card to_card amount)) \<and>
      all_pass_luhn (close_account db card_num))"
proof -
  have gen: "\<exists>c. generate_checksum a = Inr c \<and> digit_string 16 (generate_card_number a c) \<and>
           passes_luhn (generate_card_number a c) = Inr True"
    if "digit_string 9 a"
  proof -
    from that have d: "list_all is_digit a" and len: "length a = 9"
      by (simp_all add: digit_string_def)
    from card_number_digits [OF d] len
    have "digit_string 16 (generate_card_number a (spec_checksum_digit a))"
      by (simp add: digit_string_def)
    with generate_checksum_spec [OF d] round_trip_general [OF d] show ?thesis by blast
  qed
  have create: "all_pass_luhn db'"
    if "all_pass_luhn db" "create_card db draws pin_draw = Some (Inr db')"
  proof -
    from create_card_row [OF that(2)] obtain number c where
      c: "generate_checksum number = Inr c" and
      db': "db' = db @ [\<lparr> id_col = number, number_col = generate_card_number number c,
                          pin_col = generate_pin pin_draw, balance_col = 0 \<rparr>]"
      by blast
    from generate_checksum_Inr [OF c] round_trip_general [of number]
    have "passes_luhn (generate_card_number number c) = Inr True" by simp
    with that(1) show ?thesis by (simp add: db' all_pass_luhn_def)
  qed
  have income: "all_pass_luhn (snd (add_income db card_num amount))" if "all_pass_luhn db"
    using that all_pass_luhn_numbers [OF update_balance_numbers [of db card_num amount]]
    by (simp add: add_income_def)
  have transfer: "all_pass_luhn (snd (do_transfer db from_card to_card amount))"
    if "all_pass_luhn db"
    using that all_pass_luhn_numbers [OF do_transfer_numbers [of db from_card to_card amount]]
    by simp
  have close: "all_pass_luhn (close_account db card_num)" if "all_pass_luhn db"
    using that by (simp add: all_pass_luhn_def close_account_def list_all_iff)
  from gen create income transfer close show ?thesis by blast
qed

theorem luhn_round_trip_witness:
  "digit_string 9 ''003424062'' \<and> generate_checksum ''003424062'' = Inr 4 \<and>
   generate_card_number ''003424062'' 4 = card_A \<and> passes_luhn card_A = Inr True \<and>
   all_pass_luhn [] \<and>
   create_card [] [5] 42 =
     Some (Inr [\<lparr> id_col = ''000000005'', number_col = ''4000000000000051'',
                  pin_col = ''0042'', balance_col = 0 \<rparr>]) \<and>
   all_pass_luhn [\<lparr> id_col = ''000000005'', number_col = ''4000000000000051'',
                    pin_col = ''0042'', balance_col = 0 \<rparr>]"
proof -
  let ?db' = "[\<lparr> id_col = ''000000005'', number_col = ''4000000000000051'',
                 pin_col = ''0042'', balance_col = 0 \<rparr>]"
  have h: "digit_string 9 ''003424062''" by (simp add: digit_string_def is_digit_def)
  have g: "generate_checksum ''003424062'' = Inr 4" by code_simp
  have n: "generate_card_number ''003424062'' 4 = card_A" by code_simp
  have e: "all_pass_luhn []" by (simp add: all_pass_luhn_def)
  have c: "create_card [] [5] 42 = Some (Inr ?db')" by code_simp
  note rt = luhn_round_trip [of "''003424062''" "[]" "[5]" 42 ?db']
  from rt h g n have p: "passes_luhn card_A = Inr True" by auto
  from rt e c have a: "all_pass_luhn ?db'" by blast
  from h g n p e c a show ?thesis by (intro conjI)
qed



section \<open>Account-number generation\<close>

text \<open>
  The query of \<^verbatim>\<open>generate_account_number\<close> compares the 9-character draw with the
  \<^verbatim>\<open>number\<close> column, which holds the 16-character card numbers. On a table whose
  card numbers have 16 characters it finds no row, so the first draw is always taken, and
  \<^verbatim>\<open>create_card\<close> returns with a new row of that account number.
\<close>

lemma is_digit_char_of: "(n::nat) < 10 \<Longrightarrow> is_digit (char_of (48 + n))"
proof -
  assume n: "n < 10"
  then have "48 + n < 256" by simp
  then have "(of_char (char_of (48 + n) :: char) :: nat) = 48 + n" by simp
  with n show ?thesis by (simp add: is_digit_def)
qed

lemma str_nat_digits: "list_all is_digit (str_nat n)"
proof (induction n rule: str_nat.induct)
  case (1 n)
  show ?case
  proof (cases "n < 10")
    case True
    then show ?thesis by (simp add: str_nat.simps [of n] is_digit_char_of)
  next
    case False
    have "n mod 10 < 10" by simp
    then have "is_digit (char_of (48 + n mod 10))" by (rule is_digit_char_of)
    with False "1.IH" show ?thesis by (simp add: str_nat.simps [of n])
  qed
qed

lemma length_str_nat: "n < 10 ^ k \<Longrightarrow> 0 < k \<Longrightarrow> length (str_nat n) \<le> k"
proof (induction k arbitrary: n)
  case 0
  then show ?case by simp
next
  case (Suc k)
  show ?case
  proof (cases "n < 10")
    case True
    then show ?thesis by (simp add: str_nat.simps [of n])
  next
    case False
    from Suc.prems(1) have d: "n div 10 < 10 ^ k" by (simp add: less_mult_imp_div_less mult.commute)
    from False d have "0 < k" by (cases k) auto
    with Suc.IH d have "length (str_nat (n div 10)) \<le> k" by simp
    with False show ?thesis by (simp add: str_nat.simps [of n])
  qed
qed

lemma format_0d_digits: "list_all is_digit (format_0d w n)"
proof -
  have z: "is_digit (CHR ''0'')" by (simp add: is_digit_def)
  have "list_all is_digit (replicate k (CHR ''0''))" for k
    by (induction k) (simp_all add: z)
  then show ?thesis
    by (simp add: format_0d_def str_nat_digits)
qed

lemma length_format_09d: "n < 10 ^ 9 \<Longrightarrow> length (format_0d 9 n) = 9"
proof -
  assume "n < 10 ^ 9"
  then have "length (str_nat n) \<le> 9" by (rule length_str_nat) simp
  then show ?thesis by (simp add: format_0d_def)
qed

lemma fetchone_number_length:
  "list_all (\<lambda>r. length (number_col r) = 16) db \<Longrightarrow> length v \<noteq> 16 \<Longrightarrow>
   fetchone_number db v = None"
  by (induction db) (auto simp add: fetchone_number_def)

lemma generate_account_number_never_redraws:
  assumes "list_all (\<lambda>r. length (number_col r) = 16) db" "d < 10 ^ 9"
  shows "generate_account_number db (d # draws) = Some (format_0d 9 d)"
proof -
  from assms(2) have "length (format_0d 9 d) \<noteq> 16" by (simp add: length_format_09d)
  with assms(1) have "fetchone_number db (format_0d 9 d) = None"
    by (rule fetchone_number_length)
  then show ?thesis by (simp add: Let_def)
qed

lemma create_card_returns:
  assumes "list_all (\<lambda>r. length (number_col r) = 16) db" "d < 10 ^ 9"
  shows "\<exists>db'. create_card db (d # draws) p = Some (Inr db') \<and>
           list_all (\<lambda>r. length (number_col r) = 16) db' \<and>
           number_col (last db') =
             generate_card_number (format_0d 9 d) (spec_checksum_digit (format_0d 9 d))"
proof -
  let ?number = "format_0d 9 d"
  let ?c = "spec_checksum_digit ?number"
  have g: "generate_account_number db (d # draws) = Some ?number"
    using assms by (rule generate_account_number_never_redraws)
  have c: "generate_checksum ?number = Inr ?c"
    using format_0d_digits by (rule generate_checksum_spec)
  from card_number_digits [OF format_0d_digits, of 9 d] length_format_09d [OF assms(2)]
  have len: "length (generate_card_number ?number ?c) = 16" by simp
  have "create_card db (d # draws) p =
          Some (Inr (db @ [\<lparr> id_col = ?number, number_col = generate_card_number ?number ?c,
                             pin_col = generate_pin p, balance_col = 0 \<rparr>]))"
    unfolding create_card_def new_account_def by (simp only: g c option.case sum.case) simp
  with assms(1) len show ?thesis by simp
qed

text \<open>
  C5. Two sequential creations whose first draw is the same account number store the same
  card number twice: starting from the empty table, the draw 5 gives the card
  \<open>''4000000000000051''\<close>, and a second creation with the draws 5 and 6 takes 5 again
  instead of redrawing.
\<close>

theorem create_card_duplicate_card_number:
  "create_card [] [5] 42 =
     Some (Inr [\<lparr> id_col = ''000000005'', number_col = ''4000000000000051'',
                  pin_col = ''0042'', balance_col = 0 \<rparr>]) \<and>
   create_card [\<lparr> id_col = ''000000005'', number_col = ''4000000000000051'',
                  pin_col = ''0042'', balance_col = 0 \<rparr>] [5, 6] 7 =
     Some (Inr [\<lparr> id_col = ''000000005'', number_col = ''4000000000000051'',
                  pin_col = ''0042'', balance_col = 0 \<rparr>,
                \<lparr> id_col = ''000000005'', number_col = ''4000000000000051'',
                  pin_col = ''0007'', balance_col = 0 \<rparr>])"
proof -
  have "create_card [] [5] 42 =
     Some (Inr [\<lparr> id_col = ''000000005'', number_col = ''4000000000000051'',
                  pin_col = ''0042'', balance_col = 0 \<rparr>])"
    by code_simp
  moreover have "create_card [\<lparr> id_col = ''000000005'', number_col = ''4000000000000051'',
                  pin_col = ''0042'', balance_col = 0 \<rparr>] [5, 6] 7 =
     Some (Inr [\<lparr> id_col = ''000000005'', number_col = ''4000000000000051'',
                  pin_col = ''0042'', balance_col = 0 \<rparr>,
                \<lparr> id_col = ''000000005'', number_col = ''4000000000000051'',
                  pin_col = ''0007'', balance_col = 0 \<rparr>])"
    by code_simp
  ultimately show ?thesis by (intro conjI)
qed


end
